theory Spec2Isabelle
  imports Complex_Main
begin

section \<open>Python string primitives used by \<open>main.py\<close>\<close>

text \<open>
  A Python \<open>str\<close> is a sequence of code points. Here a \<^typ>\<open>char\<close> stands for one
  code point below 256, so \<^typ>\<open>string\<close> covers the ASCII and Latin-1 texts; the
  classification of white space and the case mapping below are the ones Python applies to
  these code points.
\<close>

abbreviation dq :: char where "dq \<equiv> CHR 0x22"
abbreviation sq :: char where "sq \<equiv> CHR 0x27"
abbreviation nl :: char where "nl \<equiv> CHR 0x0A"

text \<open>\<open>str.isspace\<close> on one code point; it is also the class \<open>\s\<close> of \<open>re\<close>.\<close>

definition isspace :: "char \<Rightarrow> bool" where
  "isspace c = (of_char c \<in> set [9, 10, 11, 12, 13, 28, 29, 30, 31, 32, 133, 160 :: nat])"

text \<open>\<open>str.strip()\<close>: white space removed at both ends.\<close>

definition strip :: "string \<Rightarrow> string" where
  "strip s = rev (dropWhile isspace (rev (dropWhile isspace s)))"

text \<open>\<open>str.lower()\<close>: the letters A-Z and the capital letters of Latin-1 move by 32.\<close>

definition lower_char :: "char \<Rightarrow> char" where
  "lower_char c =
     (let n = (of_char c :: nat) in
      if (65 \<le> n \<and> n \<le> 90) \<or> (192 \<le> n \<and> n \<le> 222 \<and> n \<noteq> 215)
      then char_of (n + 32) else c)"

definition lower :: "string \<Rightarrow> string" where
  "lower s = map lower_char s"

text \<open>\<open>s.startswith(p)\<close> and the substring test \<open>needle in hay\<close>.\<close>

fun startswith :: "string \<Rightarrow> string \<Rightarrow> bool" where
  "startswith s [] = True"
| "startswith [] (p # ps) = False"
| "startswith (c # cs) (p # ps) = (c = p \<and> startswith cs ps)"

fun contains :: "string \<Rightarrow> string \<Rightarrow> bool" where
  "contains needle [] = (needle = [])"
| "contains needle (c # cs) = (startswith (c # cs) needle \<or> contains needle cs)"

text \<open>\<open>s.split("\n")\<close>: the pieces between line feeds; never an empty list.\<close>

fun split_nl :: "string \<Rightarrow> string list" where
  "split_nl [] = [[]]"
| "split_nl (c # cs) =
     (if c = nl then [] # split_nl cs
      else (case split_nl cs of
              [] \<Rightarrow> [[c]]
            | l # ls \<Rightarrow> (c # l) # ls))"

text \<open>\<open>sep.join(xs)\<close>.\<close>

fun join :: "string \<Rightarrow> string list \<Rightarrow> string" where
  "join sep [] = []"
| "join sep [x] = x"
| "join sep (x # y # ys) = x @ sep @ join sep (y # ys)"

section \<open>The two regular expressions of \<open>parse_rules\<close>\<close>

text \<open>
  \<open>re.search(r'column\s+"([^"]+)"', line)\<close>. A match at the head of \<open>s\<close> reads the
  word \<open>column\<close>, at least one white space, a double quote, at least one character that
  is not a double quote, and a double quote. Both repetitions are followed by a double
  quote, which neither class contains, so the greedy repetition is the only one that can
  succeed. The result is group 1. \<open>re.search\<close> returns the leftmost match.
\<close>

definition match_col_at :: "string \<Rightarrow> string option" where
  "match_col_at s =
     (if startswith s ''column'' then
        (let r1 = drop 6 s;
             ws = takeWhile isspace r1;
             r2 = dropWhile isspace r1
         in if ws = [] then None
            else (case r2 of
                    [] \<Rightarrow> None
                  | c # r3 \<Rightarrow>
                      if c \<noteq> dq then None
                      else (let g = takeWhile (\<lambda>x. x \<noteq> dq) r3;
                                r4 = dropWhile (\<lambda>x. x \<noteq> dq) r3
                            in if g = [] then None
                               else (case r4 of [] \<Rightarrow> None | q # r5 \<Rightarrow> Some g))))
      else None)"

fun search_col :: "string \<Rightarrow> string option" where
  "search_col [] = match_col_at []"
| "search_col (c # cs) =
     (case match_col_at (c # cs) of
        Some g \<Rightarrow> Some g
      | None \<Rightarrow> search_col cs)"

text \<open>
  \<open>re.search(r'"([^"]+)"\s*$', line)\<close>. A match at the head of \<open>s\<close> reads a double
  quote, at least one character that is not a double quote, a double quote, and then only
  white space up to the end of the string (\<open>$\<close> without \<open>re.MULTILINE\<close> is the end of
  the string or the position before a final line feed, which \<open>\s*\<close> may leave or take).
\<close>

definition match_val_at :: "string \<Rightarrow> string option" where
  "match_val_at s =
     (case s of
        [] \<Rightarrow> None
      | c # r \<Rightarrow>
          if c \<noteq> dq then None
          else (let g = takeWhile (\<lambda>x. x \<noteq> dq) r;
                    r2 = dropWhile (\<lambda>x. x \<noteq> dq) r
                in if g = [] then None
                   else (case r2 of
                           [] \<Rightarrow> None
                         | q # r3 \<Rightarrow> if list_all isspace r3 then Some g else None)))"

fun search_val :: "string \<Rightarrow> string option" where
  "search_val [] = match_val_at []"
| "search_val (c # cs) =
     (case match_val_at (c # cs) of
        Some g \<Rightarrow> Some g
      | None \<Rightarrow> search_val cs)"

section \<open>\<open>parse_rules\<close>\<close>

text \<open>The two f-strings of the loop: the comparison with \<open>!=\<close> and the one with \<open>==\<close>.\<close>

definition cond_neq :: "string \<Rightarrow> string \<Rightarrow> string" where
  "cond_neq col_name val =
     ''params['_source']['' @ sq # col_name @ sq # '']!= '' @ sq # val @ [sq]"

definition cond_eq :: "string \<Rightarrow> string \<Rightarrow> string" where
  "cond_eq col_name val =
     ''params['_source']['' @ sq # col_name @ sq # ''] == '' @ sq # val @ [sq]"

text \<open>
  One pass of the loop over the lines: the condition the line appends, or \<open>None\<close> where
  the pass ends with \<open>continue\<close> or falls through the keyword chain.
\<close>

definition line_condition :: "string \<Rightarrow> string option" where
  "line_condition raw =
     (let line = strip raw in
      if line = [] then None
      else (case search_col line of
              None \<Rightarrow> None
            | Some col_name \<Rightarrow>
                (case search_val line of
                   None \<Rightarrow> None
                 | Some val \<Rightarrow>
                     if contains ''exclude'' (lower line) then Some (cond_neq col_name val)
                     else if contains ''filter'' (lower line) then
                       (if contains ''contain'' (lower line)
                        then Some (cond_eq col_name val)
                        else Some (cond_eq col_name val))
                     else if contains ''unfilter'' (lower line)
                       then Some (cond_neq col_name val)
                     else None)))"

fun scan_lines :: "string list \<Rightarrow> string list \<Rightarrow> string list" where
  "scan_lines [] conditions = conditions"
| "scan_lines (line # lines) conditions =
     scan_lines lines
       (case line_condition line of
          None \<Rightarrow> conditions
        | Some c \<Rightarrow> conditions @ [c])"

definition conditions_of :: "string \<Rightarrow> string list" where
  "conditions_of rule_text = scan_lines (split_nl rule_text) []"

definition accumulate_block :: string where
  "accumulate_block =
     ''state.map.var += (doc['ColL Name'].value);''
     @ ''state.map.var1 += (doc['ColJ Name'].value);''
     @ ''state.map.var2++;}''"

definition condition_chain :: "string list \<Rightarrow> string" where
  "condition_chain conditions = ''if('' @ join '' && '' conditions @ ''){''"

definition parse_rules :: "string \<Rightarrow> string" where
  "parse_rules rule_text =
     (let conditions = conditions_of rule_text in
      if conditions \<noteq> []
      then condition_chain conditions @ accumulate_block
      else [])"

section \<open>The generated document\<close>

text \<open>The value handed to \<open>json.dump\<close>: Python dictionaries keep their insertion order.\<close>

datatype json =
    JString string
  | JNumber int
  | JBool bool
  | JArray "json list"
  | JObject "(string \<times> json) list"

definition map_script :: "string \<Rightarrow> string \<Rightarrow> string" where
  "map_script numerator_conditions denominator_conditions =
     numerator_conditions @ ''  '' @ denominator_conditions"

definition init_script :: string where
  "init_script = ''state['map'] =['var': 0.0,'var1' : 0.0,'var2' : 0.0]''"

text \<open>The eight adjacent literals of the \<open>reduce_script\<close> entry, in the order of the source.\<close>

definition reduce_decl_result :: string where
  "reduce_decl_result =
     ''def return_map = ['Final_Performance': 0.0,'Final_Numerator': 0.0, 'Final_Denominator': 0.0]; ''"

definition reduce_decl_sums :: string where
  "reduce_decl_sums =
     ''def new_map = ['num1': 0.0, 'num2': 0.0, 'num3': 0.0, 'num': 0.0, 'den': 0.0]; ''"

definition reduce_loop_sums :: string where
  "reduce_loop_sums =
     ''for(a in states){new_map.num1 += (a.map.var); new_map.num2 += (a.map.var1); new_map.num3 += (a.map.var2); ''"

definition reduce_loop_ratio :: string where
  "reduce_loop_ratio =
     ''new_map.num = (new_map.num1*((new_map.num2/new_map.num3)*100))/100.00; new_map.den += a.map.var;} ''"

definition reduce_if_den :: string where
  "reduce_if_den =
     ''if(new_map.den!=0){return_map.Final_Performance = Math.floor((float)(new_map.num)/(new_map.den)*10000.0)/100.0}''"

definition reduce_else :: string where
  "reduce_else =
     ''else{return_map.Final_Performance ='' @ [sq, sq] @ '';return_map.SL_Met=5;}''"

definition reduce_final_den :: string where
  "reduce_final_den = ''return_map.Final_Denominator = new_map.den;''"

definition reduce_final_num :: string where
  "reduce_final_num = ''return_map.Final_Numerator = new_map.num; return return_map;''"

definition reduce_script :: string where
  "reduce_script =
     reduce_decl_result @ reduce_decl_sums @ reduce_loop_sums @ reduce_loop_ratio
     @ reduce_if_den @ reduce_else @ reduce_final_den @ reduce_final_num"

definition painless_script :: "string \<Rightarrow> json" where
  "painless_script m =
     JObject
      [(''aggs'', JObject
         [(''group_by_sl_met'', JObject
            [(''scripted_metric'', JObject
               [(''map_script'', JString m),
                (''init_script'', JString init_script),
                (''reduce_script'', JString reduce_script),
                (''combine_script'', JString ''return state'')])])]),
       (''size'', JNumber 0),
       (''query'', JObject
         [(''bool'', JObject
            [(''must'', JArray
               [JObject [(''match'', JObject [(''childslaId'', JString ''childSLAId'')])],
                JObject [(''match'', JObject [(''useInComputation'', JBool True)])]])])])]"

section \<open>Locating the two rule blocks\<close>

text \<open>
  The frame read by \<open>pd.read_excel(rules_excel, header=None)\<close> is taken as its list of
  rows, each row the pair of its cells 0 and 1 as \<open>str\<close> renders them (the sheet has at
  least two columns). The state of the scan is the pair of the two placeholders;
  \<open>None\<close> is Python's \<open>None\<close>.
\<close>

type_synonym row = "string \<times> string"
type_synonym placeholders = "string option \<times> string option"

text \<open>Line 25: cell 0 is stripped, then lowercased.\<close>

definition first_col :: "row \<Rightarrow> string" where
  "first_col r = lower (strip (fst r))"

definition locate_step :: "row \<Rightarrow> placeholders \<Rightarrow> placeholders" where
  "locate_step r st =
     (if contains ''numerator'' (first_col r) then (Some (strip (snd r)), snd st)
      else if contains ''denominator'' (first_col r) then (fst st, Some (strip (snd r)))
      else st)"

fun locate :: "row list \<Rightarrow> placeholders \<Rightarrow> placeholders" where
  "locate [] st = st"
| "locate (r # rs) st = locate rs (locate_step r st)"

text \<open>\<open>not x\<close> for a placeholder: true of \<open>None\<close> and of the empty string.\<close>

fun falsy :: "string option \<Rightarrow> bool" where
  "falsy None = True"
| "falsy (Some s) = (s = [])"

section \<open>\<open>build_painless_script\<close>\<close>

text \<open>
  The file system the function sees: the spreadsheets on disk, by path, and the documents
  written with \<open>json.dump\<close>, by path. A path is present for \<open>os.path.exists\<close> when a
  spreadsheet is stored under it.
\<close>

record world =
  sheets :: "string \<rightharpoonup> row list"
  written :: "string \<rightharpoonup> json"

datatype error =
    FileNotFoundError string
  | ValueError_missing_rules

definition build_painless_script :: "string \<Rightarrow> string \<Rightarrow> world \<Rightarrow> (error + unit) \<times> world" where
  "build_painless_script rules_excel output_json w =
     (case sheets w rules_excel of
        None \<Rightarrow> (Inl (FileNotFoundError rules_excel), w)
      | Some df \<Rightarrow>
          (let st = locate df (None, None);
               numerator_text = fst st;
               denominator_text = snd st
           in if falsy numerator_text \<or> falsy denominator_text
              then (Inl ValueError_missing_rules, w)
              else (let numerator_conditions = parse_rules (the numerator_text);
                        denominator_conditions = parse_rules (the denominator_text);
                        doc = painless_script
                                (map_script numerator_conditions denominator_conditions)
                    in (Inr (), w\<lparr>written := (written w)(output_json \<mapsto> doc)\<rparr>))))"

section \<open>Reading the reduce script\<close>

text \<open>The text of \<open>hay\<close> before the first occurrence of \<open>needle\<close>, if it occurs.\<close>

fun text_before :: "string \<Rightarrow> string \<Rightarrow> string option" where
  "text_before needle [] = (if needle = [] then Some [] else None)"
| "text_before needle (c # cs) =
     (if startswith (c # cs) needle then Some []
      else map_option ((#) c) (text_before needle cs))"

text \<open>
  Following the specification (4.3, step 4): a check \<open>num3 != 0\<close>, written with or without
  white space, stands in the script before the division of \<open>num2\<close> by \<open>num3\<close>.
\<close>

definition num3_guarded :: "string \<Rightarrow> bool" where
  "num3_guarded script =
     (case text_before ''new_map.num2/new_map.num3'' script of
        None \<Rightarrow> False
      | Some pre \<Rightarrow> contains ''num3!=0'' (filter (\<lambda>c. \<not> isspace c) pre))"

text \<open>The number of places of \<open>hay\<close> at which \<open>needle\<close> starts.\<close>

fun occurrences :: "string \<Rightarrow> string \<Rightarrow> nat" where
  "occurrences needle [] = 0"
| "occurrences needle (c # cs) =
     (if startswith (c # cs) needle then 1 else 0) + occurrences needle cs"

text \<open>
  Reading the written document: \<open>d[k]\<close> for a dictionary \<open>d\<close>, and the script stored under
  \<open>name\<close> in \<open>d["aggs"]["group_by_sl_met"]["scripted_metric"]\<close>.
\<close>

fun jfield :: "string \<Rightarrow> json \<Rightarrow> json option" where
  "jfield k (JObject kvs) = map_of kvs k"
| "jfield k (JString s) = None"
| "jfield k (JNumber n) = None"
| "jfield k (JBool b) = None"
| "jfield k (JArray xs) = None"

definition script_entry :: "string \<Rightarrow> json \<Rightarrow> string option" where
  "script_entry name doc =
     (case jfield ''aggs'' doc of
        None \<Rightarrow> None
      | Some a \<Rightarrow>
          (case jfield ''group_by_sl_met'' a of
             None \<Rightarrow> None
           | Some g \<Rightarrow>
               (case jfield ''scripted_metric'' g of
                  None \<Rightarrow> None
                | Some m \<Rightarrow>
                    (case jfield name m of
                       Some (JString s) \<Rightarrow> Some s
                     | _ \<Rightarrow> None))))"

text \<open>
  The arithmetic expressions that occur in the script: a variable, a decimal literal, a
  parenthesis, the cast \<open>(float)\<close>, a quotient, a product and \<open>Math.floor\<close>.
\<close>

datatype pexpr =
    Ref string
  | Lit string
  | Paren pexpr
  | CastFloat pexpr
  | Div pexpr pexpr
  | Mul pexpr pexpr
  | Floor pexpr


text \<open>
  The parse of such a text, with the precedence of the script language: a cast applies to
  the operand that follows it, and \<open>/\<close> and \<open>*\<close> have the same level and associate to the
  left. The first argument bounds the depth of the descent; the result is the tree and the
  text left over.
\<close>

definition is_digit :: "char \<Rightarrow> bool" where
  "is_digit c = (48 \<le> (of_char c :: nat) \<and> (of_char c :: nat) \<le> 57)"

definition is_word :: "char \<Rightarrow> bool" where
  "is_word c =
     (let n = (of_char c :: nat) in
      (48 \<le> n \<and> n \<le> 57) \<or> (65 \<le> n \<and> n \<le> 90) \<or> (97 \<le> n \<and> n \<le> 122)
      \<or> n = 95 \<or> n = 46)"

fun parse_expr :: "nat \<Rightarrow> string \<Rightarrow> (pexpr \<times> string) option"
  and parse_term :: "nat \<Rightarrow> string \<Rightarrow> (pexpr \<times> string) option"
  and parse_tail :: "nat \<Rightarrow> pexpr \<Rightarrow> string \<Rightarrow> (pexpr \<times> string) option" where
  "parse_expr 0 s = None"
| "parse_expr (Suc n) s =
     (case parse_term n s of
        None \<Rightarrow> None
      | Some (t, r) \<Rightarrow> parse_tail n t r)"
| "parse_term 0 s = None"
| "parse_term (Suc n) s =
     (if startswith s ''(float)'' then
        (case parse_term n (drop 7 s) of
           None \<Rightarrow> None
         | Some (e, r) \<Rightarrow> Some (CastFloat e, r))
      else if startswith s ''Math.floor('' then
        (case parse_expr n (drop 11 s) of
           None \<Rightarrow> None
         | Some (e, r) \<Rightarrow>
             (case r of
                [] \<Rightarrow> None
              | c # r' \<Rightarrow> if c = CHR '')'' then Some (Floor e, r') else None))
      else if startswith s ''('' then
        (case parse_expr n (drop 1 s) of
           None \<Rightarrow> None
         | Some (e, r) \<Rightarrow>
             (case r of
                [] \<Rightarrow> None
              | c # r' \<Rightarrow> if c = CHR '')'' then Some (Paren e, r') else None))
      else
        (case takeWhile is_word s of
           [] \<Rightarrow> None
         | d # ds \<Rightarrow>
             if is_digit d then Some (Lit (d # ds), dropWhile is_word s)
             else Some (Ref (d # ds), dropWhile is_word s)))"
| "parse_tail 0 acc s = None"
| "parse_tail (Suc n) acc s =
     (case s of
        [] \<Rightarrow> Some (acc, [])
      | c # r \<Rightarrow>
          if c = CHR ''/'' then
            (case parse_term n r of
               None \<Rightarrow> None
             | Some (t, r') \<Rightarrow> parse_tail n (Div acc t) r')
          else if c = CHR ''*'' then
            (case parse_term n r of
               None \<Rightarrow> None
             | Some (t, r') \<Rightarrow> parse_tail n (Mul acc t) r')
          else Some (acc, c # r))"











section \<open>Facts about the string primitives\<close>

lemma startswith_iff: "startswith s p \<longleftrightarrow> (\<exists>t. s = p @ t)"
  by (induction s p rule: startswith.induct) auto

lemma contains_iff: "contains needle hay \<longleftrightarrow> (\<exists>p t. hay = p @ needle @ t)"
proof (induction hay)
  case Nil
  then show ?case by auto
next
  case (Cons c cs)
  show ?case
  proof
    assume "contains needle (c # cs)"
    then consider "startswith (c # cs) needle" | "contains needle cs" by auto
    then show "\<exists>p t. c # cs = p @ needle @ t"
    proof cases
      case 1
      then obtain t where "c # cs = needle @ t" by (auto simp: startswith_iff)
      then have "c # cs = [] @ needle @ t" by simp
      then show ?thesis by blast
    next
      case 2
      then obtain p t where "cs = p @ needle @ t" using Cons.IH by blast
      then have "c # cs = (c # p) @ needle @ t" by simp
      then show ?thesis by blast
    qed
  next
    assume "\<exists>p t. c # cs = p @ needle @ t"
    then obtain p t where pt: "c # cs = p @ needle @ t" by blast
    show "contains needle (c # cs)"
    proof (cases p)
      case Nil
      with pt have "startswith (c # cs) needle" by (auto simp: startswith_iff)
      then show ?thesis by simp
    next
      case (Cons a p')
      with pt have "cs = p' @ needle @ t" by simp
      then have "contains needle cs" using Cons.IH by blast
      then show ?thesis by simp
    qed
  qed
qed

lemma contains_appendI: "contains needle (p @ needle @ t)"
  by (auto simp: contains_iff)

lemma contains_mono: "contains a b \<Longrightarrow> contains b c \<Longrightarrow> contains a c"
proof -
  assume "contains a b" "contains b c"
  then obtain p t p' t' where "b = p @ a @ t" "c = p' @ b @ t'" by (auto simp: contains_iff)
  then have "c = (p' @ p) @ a @ (t @ t')" by simp
  then show ?thesis unfolding contains_iff by blast
qed

lemma join_contains: "c \<in> set cs \<Longrightarrow> contains c (join sep cs)"
proof (induction sep cs rule: join.induct)
  case (1 sep)
  then show ?case by simp
next
  case (2 sep x)
  then have "join sep [x] = [] @ c @ []" by simp
  then show ?case unfolding contains_iff by blast
next
  case (3 sep x y ys)
  show ?case
  proof (cases "c = x")
    case True
    then have "join sep (x # y # ys) = [] @ c @ (sep @ join sep (y # ys))" by simp
    then show ?thesis unfolding contains_iff by blast
  next
    case False
    with 3 have "contains c (join sep (y # ys))" by simp
    then obtain p t where "join sep (y # ys) = p @ c @ t" by (auto simp: contains_iff)
    then have "join sep (x # y # ys) = (x @ sep @ p) @ c @ t" by simp
    then show ?thesis unfolding contains_iff by blast
  qed
qed

lemma scan_lines_acc: "scan_lines ls acc = acc @ scan_lines ls []"
proof (induction ls arbitrary: acc)
  case Nil
  then show ?case by simp
next
  case (Cons l ls)
  show ?case
  proof (cases "line_condition l")
    case None
    then show ?thesis using Cons.IH[of acc] by simp
  next
    case (Some c)
    have "scan_lines (l # ls) acc = (acc @ [c]) @ scan_lines ls []"
      using Some Cons.IH[of "acc @ [c]"] by simp
    moreover have "scan_lines (l # ls) [] = [c] @ scan_lines ls []"
      using Some Cons.IH[of "[c]"] by simp
    ultimately show ?thesis by simp
  qed
qed

lemma scan_lines_member:
  "l \<in> set ls \<Longrightarrow> line_condition l = Some c \<Longrightarrow> c \<in> set (scan_lines ls acc)"
proof (induction ls arbitrary: acc)
  case Nil
  then show ?case by simp
next
  case (Cons a ls)
  show ?case
  proof (cases "l = a")
    case True
    then have "scan_lines (a # ls) acc = (acc @ [c]) @ scan_lines ls []"
      using Cons.prems(2) scan_lines_acc[of ls "acc @ [c]"] by simp
    then show ?thesis by simp
  next
    case False
    then have "l \<in> set ls" using Cons.prems(1) by simp
    then show ?thesis using Cons.IH Cons.prems(2) by simp
  qed
qed

lemma cond_neq_not_eq: "cond_neq C V \<noteq> cond_eq C V"
  by (simp add: cond_neq_def cond_eq_def)


lemma guard_contains:
  assumes "l \<in> set (split_nl rule_text)" and "line_condition l = Some c"
  shows "contains c (condition_chain (conditions_of rule_text))"
    and "parse_rules rule_text = condition_chain (conditions_of rule_text) @ accumulate_block"
proof -
  have mem: "c \<in> set (conditions_of rule_text)"
    unfolding conditions_of_def using assms by (rule scan_lines_member)
  then have "contains c (join '' && '' (conditions_of rule_text))" by (rule join_contains)
  then obtain p t where "join '' && '' (conditions_of rule_text) = p @ c @ t"
    by (auto simp: contains_iff)
  then have "condition_chain (conditions_of rule_text) = (''if('' @ p) @ c @ (t @ ''){'')"
    by (simp add: condition_chain_def)
  then show "contains c (condition_chain (conditions_of rule_text))"
    unfolding contains_iff by blast
  from mem have "conditions_of rule_text \<noteq> []" by auto
  then show "parse_rules rule_text = condition_chain (conditions_of rule_text) @ accumulate_block"
    by (simp add: parse_rules_def Let_def)
qed

lemma unfilter_contains_filter: "contains ''unfilter'' s \<Longrightarrow> contains ''filter'' s"
proof -
  assume "contains ''unfilter'' s"
  then obtain p t where "s = p @ ''unfilter'' @ t" by (auto simp: contains_iff)
  then have "s = (p @ ''un'') @ ''filter'' @ t" by simp
  then show ?thesis unfolding contains_iff by blast
qed

section \<open>Facts about the value pattern\<close>

lemma dq_not_space: "\<not> isspace dq"
  by (simp add: isspace_def)

lemma match_val_at_SomeD:
  assumes "match_val_at s = Some g"
  shows "\<exists>ws. s = dq # g @ dq # ws \<and> dq \<notin> set g \<and> g \<noteq> [] \<and> list_all isspace ws"
proof (cases s)
  case Nil
  with assms show ?thesis by (simp add: match_val_at_def)
next
  case (Cons c r)
  let ?g = "takeWhile (\<lambda>x. x \<noteq> dq) r"
  let ?r2 = "dropWhile (\<lambda>x. x \<noteq> dq) r"
  from assms Cons have c: "c = dq" and g: "?g \<noteq> []"
    by (auto simp: match_val_at_def Let_def split: if_splits)
  from assms Cons c g obtain q r3 where r2: "?r2 = q # r3" and ws: "list_all isspace r3" and gg: "g = ?g"
    by (auto simp: match_val_at_def Let_def split: if_splits list.splits)
  have "q = dq" using r2 hd_dropWhile[of "\<lambda>x. x \<noteq> dq" r] by auto
  moreover have "r = ?g @ ?r2" by simp
  moreover have "dq \<notin> set ?g" by (auto dest: set_takeWhileD)
  ultimately show ?thesis using Cons c g r2 ws gg by auto
qed

lemma match_val_at_I:
  assumes "dq \<notin> set g" "g \<noteq> []" "list_all isspace ws"
  shows "match_val_at (dq # g @ dq # ws) = Some g"
proof -
  have "takeWhile (\<lambda>x. x \<noteq> dq) (g @ dq # ws) = g"
    using assms(1) by (induction g) auto
  moreover have "dropWhile (\<lambda>x. x \<noteq> dq) (g @ dq # ws) = dq # ws"
    using assms(1) by (induction g) auto
  ultimately show ?thesis using assms(2,3) by (simp add: match_val_at_def Let_def)
qed

lemma search_val_SomeD:
  "search_val s = Some g \<Longrightarrow>
     \<exists>p ws. s = p @ dq # g @ dq # ws \<and> dq \<notin> set g \<and> g \<noteq> [] \<and> list_all isspace ws"
proof (induction s)
  case Nil
  then show ?case by (simp add: match_val_at_def)
next
  case (Cons c cs)
  show ?case
  proof (cases "match_val_at (c # cs)")
    case None
    with Cons.prems have "search_val cs = Some g" by simp
    then obtain p ws where "cs = p @ dq # g @ dq # ws" "dq \<notin> set g" "g \<noteq> []" "list_all isspace ws"
      using Cons.IH by blast
    then have "c # cs = (c # p) @ dq # g @ dq # ws \<and> dq \<notin> set g \<and> g \<noteq> [] \<and> list_all isspace ws"
      by simp
    then show ?thesis by blast
  next
    case (Some g')
    with Cons.prems have "g' = g" by simp
    with Some obtain ws where "c # cs = [] @ dq # g @ dq # ws \<and> dq \<notin> set g \<and> g \<noteq> [] \<and> list_all isspace ws"
      using match_val_at_SomeD by fastforce
    then show ?thesis by blast
  qed
qed

lemma search_val_finds:
  "match_val_at s = Some g \<Longrightarrow> \<exists>g'. search_val (p @ s) = Some g'"
proof (induction p)
  case Nil
  then show ?case by (cases s) (auto simp: match_val_at_def)
next
  case (Cons c p)
  then show ?case by (cases "match_val_at (c # p @ s)") auto
qed

lemma last_occurrence_unique:
  assumes "xs @ a # ys = xs' @ a # ys'" and "a \<notin> set ys" and "a \<notin> set ys'"
  shows "xs = xs' \<and> ys = ys'"
proof -
  have t1: "takeWhile (\<lambda>x. x \<noteq> a) (rev ys @ a # rev xs) = rev ys"
    using assms(2) by (auto simp: takeWhile_tail)
  have t2: "takeWhile (\<lambda>x. x \<noteq> a) (rev ys' @ a # rev xs') = rev ys'"
    using assms(3) by (auto simp: takeWhile_tail)
  have "rev (xs @ a # ys) = rev (xs' @ a # ys')" using assms(1) by (rule arg_cong)
  then have "rev ys @ a # rev xs = rev ys' @ a # rev xs'" by simp
  then have "rev ys = rev ys'" using t1 t2 by simp
  then have "ys = ys'" by simp
  with assms(1) show ?thesis by simp
qed

lemma spaces_no_dq: "list_all isspace ws \<Longrightarrow> dq \<notin> set ws"
  using dq_not_space by (auto simp: list_all_iff)

lemma search_val_last_token:
  assumes "dq \<notin> set v" "v \<noteq> []" "list_all isspace ws"
  shows "search_val (pre @ dq # v @ dq # ws) = Some v"
proof -
  obtain g where g: "search_val (pre @ dq # v @ dq # ws) = Some g"
    using search_val_finds[OF match_val_at_I[OF assms]] by blast
  then obtain p ws' where d: "pre @ dq # v @ dq # ws = p @ dq # g @ dq # ws'"
      "dq \<notin> set g" "list_all isspace ws'"
    using search_val_SomeD[OF g] by blast
  have "(pre @ dq # v) @ dq # ws = (p @ dq # g) @ dq # ws'" using d(1) by simp
  then have "pre @ dq # v = p @ dq # g"
    using last_occurrence_unique[of "pre @ dq # v" dq ws "p @ dq # g" ws']
      spaces_no_dq[OF assms(3)] spaces_no_dq[OF d(3)] by simp
  then have "v = g"
    using last_occurrence_unique[of pre dq v p g] assms(1) d(2) by simp
  with g show ?thesis by simp
qed

lemma search_val_suffix_None:
  assumes "dq \<notin> set suf" "\<not> list_all isspace suf"
  shows "search_val (pre @ dq # suf) = None"
proof (rule ccontr)
  assume "search_val (pre @ dq # suf) \<noteq> None"
  then obtain g where g: "search_val (pre @ dq # suf) = Some g" by auto
  obtain p ws where d: "pre @ dq # suf = p @ dq # g @ dq # ws" "list_all isspace ws"
    using search_val_SomeD[OF g] by blast
  have "pre @ dq # suf = (p @ dq # g) @ dq # ws" using d(1) by simp
  then have "suf = ws"
    using last_occurrence_unique[of pre dq suf "p @ dq # g" ws] assms(1) spaces_no_dq[OF d(2)]
    by simp
  with d(2) assms(2) show False by simp
qed


lemma line_condition_no_value: "search_val (strip raw) = None \<Longrightarrow> line_condition raw = None"
  by (simp add: line_condition_def Let_def split: option.splits)

section \<open>The keyword chain of \<open>parse_rules\<close>\<close>

text \<open>
  C1. A line with the keyword \<open>unfilter\<close> and without \<open>exclude\<close> is meant to give the
  comparison \<open>!=\<close>. The branch that does so is the third of the chain; the second one tests
  \<open>filter\<close>, which every line with \<open>unfilter\<close> contains, so the line
  \<open>Unfilter column "A" = "x"\<close> is compiled to the comparison \<open>==\<close>.
\<close>

theorem unfilter_line_gets_equality:
  \<open>contains ''unfilter'' (lower (strip ''Unfilter column "A" = "x"''))
   \<and> \<not> contains ''exclude'' (lower (strip ''Unfilter column "A" = "x"''))
   \<and> search_col (strip ''Unfilter column "A" = "x"'') = Some ''A''
   \<and> search_val (strip ''Unfilter column "A" = "x"'') = Some ''x''
   \<and> line_condition ''Unfilter column "A" = "x"'' = Some (cond_eq ''A'' ''x'')
   \<and> line_condition ''Unfilter column "A" = "x"'' \<noteq> Some (cond_neq ''A'' ''x'')\<close>
  by code_simp



section \<open>The value of a rule line\<close>

text \<open>
  C3, as the specification states it: the value is the last quoted token of the line also
  when a suffix that is not white space follows it. On the line
  \<open>Exclude line where column "A" = "x" please\<close> the column name is found, the value
  pattern finds nothing, and the line appends no condition.
\<close>

theorem value_before_suffix_counterexample:
  \<open>search_col (strip ''Exclude line where column "A" = "x" please'') = Some ''A''
   \<and> search_val (strip ''Exclude line where column "A" = "x" please'') \<noteq> Some ''x''
   \<and> search_val (strip ''Exclude line where column "A" = "x" please'') = None
   \<and> line_condition ''Exclude line where column "A" = "x" please'' = None\<close>
  by code_simp

text \<open>
  C3, amended. Take a rule line with a quoted token right after the word \<open>column\<close> (the
  column pattern finds \<open>C\<close>) whose stripped text ends with a double quote, a non-empty
  text \<open>v\<close> free of double quotes, a double quote and then white space only, after at
  least one other quoted token. The value extracted is \<open>v\<close>, the last quoted token of
  the line, and it is the value the line compares with: with \<open>exclude\<close> the line appends
  \<open>params['_source']['C']!= 'v'\<close>, otherwise with \<open>filter\<close> it appends
  \<open>params['_source']['C'] == 'v'\<close>, otherwise nothing. When a character that is not
  white space follows the last double quote of the stripped line, no value is extracted
  and the line appends no condition.
\<close>

theorem value_is_final_quoted_token:
  "(search_col (strip raw) = Some C
      \<and> strip raw = pre @ dq # v @ dq # ws \<and> dq \<notin> set v \<and> v \<noteq> [] \<and> list_all isspace ws
      \<and> pre = a @ dq # t @ dq # b \<and> dq \<notin> set t \<and> t \<noteq> []
      \<longrightarrow> search_val (strip raw) = Some v
        \<and> line_condition raw
            = (if contains ''exclude'' (lower (strip raw))
               then Some (''params['_source']['' @ sq # C @ sq # '']!= '' @ sq # v @ [sq])
               else if contains ''filter'' (lower (strip raw))
               then Some (''params['_source']['' @ sq # C @ sq # ''] == '' @ sq # v @ [sq])
               else None))
   \<and> (strip raw = pre' @ dq # suf \<and> dq \<notin> set suf \<and> \<not> list_all isspace suf
      \<longrightarrow> search_val (strip raw) = None \<and> line_condition raw = None)"
proof (intro conjI impI)
  assume h: "search_col (strip raw) = Some C
      \<and> strip raw = pre @ dq # v @ dq # ws \<and> dq \<notin> set v \<and> v \<noteq> [] \<and> list_all isspace ws
      \<and> pre = a @ dq # t @ dq # b \<and> dq \<notin> set t \<and> t \<noteq> []"
  then show sv: "search_val (strip raw) = Some v"
    using search_val_last_token[of v ws pre] by simp
  from h have ne: "strip raw \<noteq> []" by auto
  from h have sc: "search_col (strip raw) = Some C" by blast
  have nf: "\<not> contains ''unfilter'' (lower (strip raw))"
    if "\<not> contains ''filter'' (lower (strip raw))"
    using that unfilter_contains_filter by blast
  show "line_condition raw
            = (if contains ''exclude'' (lower (strip raw))
               then Some (''params['_source']['' @ sq # C @ sq # '']!= '' @ sq # v @ [sq])
               else if contains ''filter'' (lower (strip raw))
               then Some (''params['_source']['' @ sq # C @ sq # ''] == '' @ sq # v @ [sq])
               else None)"
    using sc sv ne nf by (simp add: line_condition_def Let_def cond_neq_def cond_eq_def)
next
  assume a: "strip raw = pre' @ dq # suf \<and> dq \<notin> set suf \<and> \<not> list_all isspace suf"
  then show n: "search_val (strip raw) = None"
    using search_val_suffix_None[of suf pre'] by simp
  then show "line_condition raw = None" by (rule line_condition_no_value)
qed

theorem value_is_final_quoted_token_witness:
  \<open>search_val (strip ''Exclude line where column "A" = "x"'') = Some ''x''
   \<and> line_condition ''Exclude line where column "A" = "x"''
       = Some (''params['_source']['A']!= 'x'' @ [sq])
   \<and> search_val (strip ''Exclude line where column "A" = "x" please'') = None
   \<and> line_condition ''Exclude line where column "A" = "x" please'' = None\<close>
proof -
  have h1: \<open>search_col (strip ''Exclude line where column "A" = "x"'') = Some ''A''
            \<and> strip ''Exclude line where column "A" = "x"''
                = ''Exclude line where column "A" = '' @ dq # ''x'' @ dq # []
            \<and> dq \<notin> set ''x'' \<and> ''x'' \<noteq> [] \<and> list_all isspace []
            \<and> ''Exclude line where column "A" = ''
                = ''Exclude line where column '' @ dq # ''A'' @ dq # '' = ''
            \<and> dq \<notin> set ''A'' \<and> ''A'' \<noteq> []\<close>
    by code_simp
  have k: \<open>contains ''exclude'' (lower (strip ''Exclude line where column "A" = "x"''))\<close>
    by code_simp
  have h2: \<open>strip ''Exclude line where column "A" = "x" please''
              = ''Exclude line where column "A" = "x'' @ dq # '' please''
            \<and> dq \<notin> set '' please'' \<and> \<not> list_all isspace '' please''\<close>
    by code_simp
  from value_is_final_quoted_token[THEN conjunct1, rule_format, OF h1] k
  have r1: \<open>search_val (strip ''Exclude line where column "A" = "x"'') = Some ''x''
            \<and> line_condition ''Exclude line where column "A" = "x"''
                = Some (''params['_source']['A']!= 'x'' @ [sq])\<close>
    by simp
  from value_is_final_quoted_token[THEN conjunct2, rule_format, OF h2]
  have r2: \<open>search_val (strip ''Exclude line where column "A" = "x" please'') = None
            \<and> line_condition ''Exclude line where column "A" = "x" please'' = None\<close> .
  from r1 r2 show ?thesis by blast
qed

section \<open>Locating the blocks and assembling the document\<close>

lemma locate_append: "locate (xs @ ys) st = locate ys (locate xs st)"
  by (induction xs arbitrary: st) auto

lemma locate_keeps_numerator:
  "\<forall>r\<in>set rs. \<not> contains ''numerator'' (first_col r) \<Longrightarrow> fst (locate rs st) = fst st"
  by (induction rs arbitrary: st) (auto simp: locate_step_def)

lemma locate_keeps_denominator:
  "\<forall>r\<in>set rs. contains ''numerator'' (first_col r) \<or> \<not> contains ''denominator'' (first_col r)
     \<Longrightarrow> snd (locate rs st) = snd st"
  by (induction rs arbitrary: st) (auto simp: locate_step_def)

lemma build_missing:
  assumes "sheets w p = Some df" and "falsy (fst (locate df (None, None))) \<or> falsy (snd (locate df (None, None)))"
  shows "build_painless_script p out w = (Inl ValueError_missing_rules, w)"
  using assms by (simp add: build_painless_script_def Let_def)

text \<open>
  C9. A row whose normalised first cell contains both \<open>numerator\<close> and \<open>denominator\<close> sets
  the numerator placeholder only: the first test of the chain takes the row and the
  denominator placeholder keeps the value it had, also when the row ends the table.
\<close>

theorem both_labels_row_is_numerator:
  assumes "contains ''numerator'' (first_col r)" and "contains ''denominator'' (first_col r)"
  shows "locate_step r (n, d) = (Some (strip (snd r)), d)
       \<and> locate (rows @ [r]) st = (Some (strip (snd r)), snd (locate rows st))"
  using assms by (simp add: locate_step_def locate_append)

text \<open>
  C5. When, after the scan of all rows of an existing sheet, the numerator placeholder or
  the denominator placeholder is still \<open>None\<close>, the function raises the error of the
  missing rules and the file system is the one it started from: nothing is written.
\<close>

theorem missing_rule_block_raises:
  assumes "sheets w rules_excel = Some df"
    and "fst (locate df (None, None)) = None \<or> snd (locate df (None, None)) = None"
  shows "build_painless_script rules_excel output_json w = (Inl ValueError_missing_rules, w)
       \<and> written (snd (build_painless_script rules_excel output_json w)) = written w"
proof -
  have "falsy (fst (locate df (None, None))) \<or> falsy (snd (locate df (None, None)))"
    using assms(2) by auto
  from build_missing[OF assms(1) this] show ?thesis by simp
qed

text \<open>
  C10, amended. When the last row captured as numerator (no later row contains
  \<open>numerator\<close>), or the last row captured as denominator (no later row is captured as
  denominator), has a rule text that is empty after stripping, the function raises the
  error of the missing rules, as it does when the row is absent.
\<close>

theorem empty_rule_text_raises:
  assumes "sheets w rules_excel = Some (pre @ r # post)"
    and "strip (snd r) = []"
    and "(contains ''numerator'' (first_col r)
            \<and> (\<forall>x\<in>set post. \<not> contains ''numerator'' (first_col x)))
       \<or> (\<not> contains ''numerator'' (first_col r) \<and> contains ''denominator'' (first_col r)
            \<and> (\<forall>x\<in>set post. contains ''numerator'' (first_col x)
                              \<or> \<not> contains ''denominator'' (first_col x)))"
  shows "build_painless_script rules_excel output_json w = (Inl ValueError_missing_rules, w)"
proof -
  let ?st = "locate pre (None, None)"
  have split: "locate (pre @ r # post) (None, None) = locate post (locate_step r ?st)"
    by (simp add: locate_append)
  from assms(3) have "falsy (fst (locate (pre @ r # post) (None, None)))
                    \<or> falsy (snd (locate (pre @ r # post) (None, None)))"
  proof
    assume a: "contains ''numerator'' (first_col r)
            \<and> (\<forall>x\<in>set post. \<not> contains ''numerator'' (first_col x))"
    then have "fst (locate post (locate_step r ?st)) = fst (locate_step r ?st)"
      using locate_keeps_numerator by blast
    also have "\<dots> = Some []" using a assms(2) by (simp add: locate_step_def)
    finally show ?thesis using split by simp
  next
    assume a: "\<not> contains ''numerator'' (first_col r) \<and> contains ''denominator'' (first_col r)
            \<and> (\<forall>x\<in>set post. contains ''numerator'' (first_col x)
                              \<or> \<not> contains ''denominator'' (first_col x))"
    then have "snd (locate post (locate_step r ?st)) = snd (locate_step r ?st)"
      using locate_keeps_denominator by blast
    also have "\<dots> = Some []" using a assms(2) by (simp add: locate_step_def)
    finally show ?thesis using split by simp
  qed
  from build_missing[OF assms(1) this] show ?thesis .
qed

text \<open>
  C4, as the specification states it: every rule text from which no condition is parsed
  contributes the empty string to the map script and causes no error. A Numerator cell
  holding one space is such a text: no condition is parsed from it, it is empty after
  stripping, and the run ends with the error of the missing rules; no map script is built.
\<close>

theorem empty_block_counterexample:
  \<open>conditions_of '' '' = []
   \<and> locate [(''Numerator'', '' ''), (''Denominator'', ''Filter column "B" contain "y"'')]
        (None, None)
       = (Some [], Some ''Filter column "B" contain "y"'')
   \<and> conditions_of [] = []
   \<and> build_painless_script ''rules.xlsx'' ''out.json''
        \<lparr>sheets = [''rules.xlsx'' \<mapsto>
                     [(''Numerator'', '' ''),
                      (''Denominator'', ''Filter column "B" contain "y"'')]],
         written = Map.empty\<rparr>
       = (Inl ValueError_missing_rules,
          \<lparr>sheets = [''rules.xlsx'' \<mapsto>
                     [(''Numerator'', '' ''),
                      (''Denominator'', ''Filter column "B" contain "y"'')]],
           written = Map.empty\<rparr>)\<close>
proof -
  let ?df = \<open>[(''Numerator'', '' ''), (''Denominator'', ''Filter column "B" contain "y"'')]\<close>
  have c: "conditions_of '' '' = []" by code_simp
  have c': "conditions_of [] = []" by code_simp
  have l: \<open>locate ?df (None, None) = (Some [], Some ''Filter column "B" contain "y"'')\<close>
    by code_simp
  have b: "build_painless_script ''rules.xlsx'' ''out.json''
             \<lparr>sheets = [''rules.xlsx'' \<mapsto> ?df], written = Map.empty\<rparr>
           = (Inl ValueError_missing_rules,
              \<lparr>sheets = [''rules.xlsx'' \<mapsto> ?df], written = Map.empty\<rparr>)"
    using l by (simp add: build_painless_script_def Let_def)
  from c l c' b show ?thesis by blast
qed

text \<open>
  C4, amended. A rule text from which no condition is parsed compiles to the empty string,
  and the map script is always the numerator statement, two spaces, and the denominator
  statement, in that order. When both located texts are not empty after stripping, the
  run raises nothing and writes the document with that map script, so a block of
  unparsable lines contributes the empty string without an error; when a located text is
  empty after stripping, the run raises the error of the missing rules instead.
\<close>

theorem empty_block_contributes_nothing:
  "(conditions_of rule_text = [] \<longrightarrow> parse_rules rule_text = [])
   \<and> map_script numerator_conditions denominator_conditions
       = numerator_conditions @ ''  '' @ denominator_conditions
   \<and> (sheets w rules_excel = Some df
        \<and> locate df (None, None) = (Some numerator_text, Some denominator_text)
        \<and> numerator_text \<noteq> [] \<and> denominator_text \<noteq> []
      \<longrightarrow> build_painless_script rules_excel output_json w
           = (Inr (), w\<lparr>written := (written w)(output_json \<mapsto>
                painless_script
                  (parse_rules numerator_text @ ''  '' @ parse_rules denominator_text))\<rparr>))
   \<and> (sheets w rules_excel = Some df
        \<and> locate df (None, None) = (Some numerator_text, Some denominator_text)
        \<and> (numerator_text = [] \<or> denominator_text = [])
      \<longrightarrow> build_painless_script rules_excel output_json w = (Inl ValueError_missing_rules, w))"
proof (intro conjI impI)
  assume "conditions_of rule_text = []"
  then show "parse_rules rule_text = []" by (simp add: parse_rules_def Let_def)
next
  show "map_script numerator_conditions denominator_conditions
          = numerator_conditions @ ''  '' @ denominator_conditions"
    by (simp add: map_script_def)
next
  assume "sheets w rules_excel = Some df
        \<and> locate df (None, None) = (Some numerator_text, Some denominator_text)
        \<and> numerator_text \<noteq> [] \<and> denominator_text \<noteq> []"
  then show "build_painless_script rules_excel output_json w
           = (Inr (), w\<lparr>written := (written w)(output_json \<mapsto>
                painless_script
                  (parse_rules numerator_text @ ''  '' @ parse_rules denominator_text))\<rparr>)"
    by (simp add: build_painless_script_def Let_def map_script_def)
next
  assume "sheets w rules_excel = Some df
        \<and> locate df (None, None) = (Some numerator_text, Some denominator_text)
        \<and> (numerator_text = [] \<or> denominator_text = [])"
  then show "build_painless_script rules_excel output_json w = (Inl ValueError_missing_rules, w)"
    by (auto simp: build_painless_script_def Let_def)
qed

theorem both_labels_row_is_numerator_witness:
  \<open>locate_step ('' Numerator / Denominator '', '' Exclude line where column "A" = "x" '') (None, Some ''d'')
     = (Some ''Exclude line where column "A" = "x"'', Some ''d'')\<close>
proof -
  let ?r = \<open>('' Numerator / Denominator '', '' Exclude line where column "A" = "x" '')\<close>
  have n: "contains ''numerator'' (first_col ?r)" by code_simp
  have d: "contains ''denominator'' (first_col ?r)" by code_simp
  have s: \<open>strip (snd ?r) = ''Exclude line where column "A" = "x"''\<close> by code_simp
  from both_labels_row_is_numerator[OF n d, of None "Some ''d''" "[]" "(None, None)"] s
  show ?thesis by simp
qed

theorem missing_rule_block_raises_witness:
  \<open>build_painless_script ''rules.xlsx'' ''out.json''
      \<lparr>sheets = [''rules.xlsx'' \<mapsto> [(''Numerator'', ''Exclude line where column "A" = "x"'')]],
       written = Map.empty\<rparr>
    = (Inl ValueError_missing_rules,
       \<lparr>sheets = [''rules.xlsx'' \<mapsto> [(''Numerator'', ''Exclude line where column "A" = "x"'')]],
        written = Map.empty\<rparr>)\<close>
proof -
  let ?df = \<open>[(''Numerator'', ''Exclude line where column "A" = "x"'')]\<close>
  let ?w = "\<lparr>sheets = [''rules.xlsx'' \<mapsto> ?df], written = Map.empty\<rparr>"
  have a: "sheets ?w ''rules.xlsx'' = Some ?df" by simp
  have b: "fst (locate ?df (None, None)) = None \<or> snd (locate ?df (None, None)) = None"
    by code_simp
  from missing_rule_block_raises[OF a b, of "''out.json''"] show ?thesis by blast
qed

theorem empty_block_contributes_nothing_witness:
  \<open>parse_rules ''no rule here'' = []
   \<and> build_painless_script ''rules.xlsx'' ''out.json''
        \<lparr>sheets = [''rules.xlsx'' \<mapsto>
                     [(''Numerator'', ''no rule here''),
                      (''Denominator'', ''Filter column "B" contain "y"'')]],
         written = Map.empty\<rparr>
      = (Inr (),
         \<lparr>sheets = [''rules.xlsx'' \<mapsto>
                     [(''Numerator'', ''no rule here''),
                      (''Denominator'', ''Filter column "B" contain "y"'')]],
          written = [''out.json'' \<mapsto>
                      painless_script ([] @ ''  '' @ parse_rules ''Filter column "B" contain "y"'')]\<rparr>)
   \<and> build_painless_script ''rules.xlsx'' ''out.json''
        \<lparr>sheets = [''rules.xlsx'' \<mapsto>
                     [(''Numerator'', '' ''),
                      (''Denominator'', ''Filter column "B" contain "y"'')]],
         written = Map.empty\<rparr>
      = (Inl ValueError_missing_rules,
         \<lparr>sheets = [''rules.xlsx'' \<mapsto>
                     [(''Numerator'', '' ''),
                      (''Denominator'', ''Filter column "B" contain "y"'')]],
          written = Map.empty\<rparr>)\<close>
proof -
  let ?df = \<open>[(''Numerator'', ''no rule here''),
              (''Denominator'', ''Filter column "B" contain "y"'')]\<close>
  let ?w = "\<lparr>sheets = [''rules.xlsx'' \<mapsto> ?df], written = Map.empty\<rparr>"
  let ?df' = \<open>[(''Numerator'', '' ''),
               (''Denominator'', ''Filter column "B" contain "y"'')]\<close>
  let ?w' = "\<lparr>sheets = [''rules.xlsx'' \<mapsto> ?df'], written = Map.empty\<rparr>"
  have e: "conditions_of ''no rule here'' = []" by code_simp
  have b: \<open>locate ?df (None, None) = (Some ''no rule here'', Some ''Filter column "B" contain "y"'')\<close>
    by code_simp
  have h3: \<open>sheets ?w ''rules.xlsx'' = Some ?df
        \<and> locate ?df (None, None) = (Some ''no rule here'', Some ''Filter column "B" contain "y"'')
        \<and> ''no rule here'' \<noteq> [] \<and> ''Filter column "B" contain "y"'' \<noteq> []\<close>
    using b by simp
  have b': \<open>locate ?df' (None, None) = (Some [], Some ''Filter column "B" contain "y"'')\<close>
    by code_simp
  have h4: \<open>sheets ?w' ''rules.xlsx'' = Some ?df'
        \<and> locate ?df' (None, None) = (Some [], Some ''Filter column "B" contain "y"'')
        \<and> ([] = ([]::string) \<or> ''Filter column "B" contain "y"'' = [])\<close>
    using b' by simp
  note t = empty_block_contributes_nothing
  from t[THEN conjunct1, rule_format, OF e]
  have p: "parse_rules ''no rule here'' = []" .
  from t[THEN conjunct2, THEN conjunct2, THEN conjunct1, rule_format, OF h3, of "''out.json''"]
  have r3: \<open>build_painless_script ''rules.xlsx'' ''out.json'' ?w
      = (Inr (), ?w\<lparr>written := (written ?w)(''out.json'' \<mapsto>
           painless_script (parse_rules ''no rule here'' @ ''  ''
                            @ parse_rules ''Filter column "B" contain "y"''))\<rparr>)\<close> .
  from t[THEN conjunct2, THEN conjunct2, THEN conjunct2, rule_format, OF h4, of "''out.json''"]
  have r4: "build_painless_script ''rules.xlsx'' ''out.json'' ?w'
      = (Inl ValueError_missing_rules, ?w')" .
  from p r3 r4 show ?thesis by simp
qed

text \<open>
  C10, as the specification states it: a table with a numerator row whose rule text is
  empty after stripping always raises. Here the first numerator row is such a row, a later
  numerator row replaces its text, and the function writes the document.
\<close>

theorem empty_rule_text_counterexample:
  \<open>(''Numerator'', '' '') \<in> set [(''Numerator'', '' ''),
        (''Numerator'', ''Exclude line where column "A" = "x"''),
        (''Denominator'', ''Filter column "B" contain "y"'')]
   \<and> contains ''numerator'' (first_col (''Numerator'', '' ''))
   \<and> strip (snd (''Numerator'', '' '')) = []
   \<and> fst (build_painless_script ''rules.xlsx'' ''out.json''
        \<lparr>sheets = [''rules.xlsx'' \<mapsto> [(''Numerator'', '' ''),
                     (''Numerator'', ''Exclude line where column "A" = "x"''),
                     (''Denominator'', ''Filter column "B" contain "y"'')]],
         written = Map.empty\<rparr>) = Inr ()\<close>
proof -
  let ?df = \<open>[(''Numerator'', '' ''),
              (''Numerator'', ''Exclude line where column "A" = "x"''),
              (''Denominator'', ''Filter column "B" contain "y"'')]\<close>
  have l: \<open>locate ?df (None, None)
            = (Some ''Exclude line where column "A" = "x"'', Some ''Filter column "B" contain "y"'')\<close>
    by code_simp
  have r: "fst (build_painless_script ''rules.xlsx'' ''out.json''
             \<lparr>sheets = [''rules.xlsx'' \<mapsto> ?df], written = Map.empty\<rparr>) = Inr ()"
    using l by (simp add: build_painless_script_def Let_def)
  have m: "(''Numerator'', '' '') \<in> set ?df" by simp
  have c: "contains ''numerator'' (first_col (''Numerator'', '' ''))" by code_simp
  have s: "strip (snd (''Numerator'', '' '')) = []" by code_simp
  from m c s r show ?thesis by blast
qed

theorem empty_rule_text_raises_witness:
  \<open>build_painless_script ''rules.xlsx'' ''out.json''
      \<lparr>sheets = [''rules.xlsx'' \<mapsto> [(''Numerator'', ''Exclude line where column "A" = "x"''),
                   (''Numerator'', '' ''),
                   (''Denominator'', ''Filter column "B" contain "y"'')]],
       written = Map.empty\<rparr>
    = (Inl ValueError_missing_rules,
       \<lparr>sheets = [''rules.xlsx'' \<mapsto> [(''Numerator'', ''Exclude line where column "A" = "x"''),
                   (''Numerator'', '' ''),
                   (''Denominator'', ''Filter column "B" contain "y"'')]],
        written = Map.empty\<rparr>)
   \<and> build_painless_script ''rules.xlsx'' ''out.json''
      \<lparr>sheets = [''rules.xlsx'' \<mapsto> [(''Numerator'', ''Exclude line where column "A" = "x"''),
                   (''Denominator'', '' '')]],
       written = Map.empty\<rparr>
    = (Inl ValueError_missing_rules,
       \<lparr>sheets = [''rules.xlsx'' \<mapsto> [(''Numerator'', ''Exclude line where column "A" = "x"''),
                   (''Denominator'', '' '')]],
        written = Map.empty\<rparr>)\<close>
proof -
  let ?n = \<open>(''Numerator'', ''Exclude line where column "A" = "x"'')\<close>
  let ?d = \<open>(''Denominator'', ''Filter column "B" contain "y"'')\<close>
  let ?w1 = "\<lparr>sheets = [''rules.xlsx'' \<mapsto> [?n, (''Numerator'', '' ''), ?d]], written = Map.empty\<rparr>"
  let ?w2 = "\<lparr>sheets = [''rules.xlsx'' \<mapsto> [?n, (''Denominator'', '' '')]], written = Map.empty\<rparr>"
  have a1: "sheets ?w1 ''rules.xlsx'' = Some ([?n] @ (''Numerator'', '' '') # [?d])" by simp
  have b1: "strip (snd (''Numerator'', '' '')) = []" by code_simp
  have c1: "(contains ''numerator'' (first_col (''Numerator'', '' ''))
            \<and> (\<forall>x\<in>set [?d]. \<not> contains ''numerator'' (first_col x)))
       \<or> (\<not> contains ''numerator'' (first_col (''Numerator'', '' ''))
            \<and> contains ''denominator'' (first_col (''Numerator'', '' ''))
            \<and> (\<forall>x\<in>set [?d]. contains ''numerator'' (first_col x)
                              \<or> \<not> contains ''denominator'' (first_col x)))"
    by code_simp
  have a2: "sheets ?w2 ''rules.xlsx'' = Some ([?n] @ (''Denominator'', '' '') # [])" by simp
  have b2: "strip (snd (''Denominator'', '' '')) = []" by code_simp
  have c2: "(contains ''numerator'' (first_col (''Denominator'', '' ''))
            \<and> (\<forall>x\<in>set []. \<not> contains ''numerator'' (first_col x)))
       \<or> (\<not> contains ''numerator'' (first_col (''Denominator'', '' ''))
            \<and> contains ''denominator'' (first_col (''Denominator'', '' ''))
            \<and> (\<forall>x\<in>set []. contains ''numerator'' (first_col x)
                              \<or> \<not> contains ''denominator'' (first_col x)))"
    by code_simp
  from empty_rule_text_raises[OF a1 b1 c1, of "''out.json''"]
       empty_rule_text_raises[OF a2 b2 c2, of "''out.json''"]
  show ?thesis by simp
qed

section \<open>The reduce script of the written document\<close>

text \<open>
  A run that raises nothing has written, under the output path, the document built from
  some map script; the \<open>reduce_script\<close> entry of that document is the text of the eight
  literals, whatever the map script is.
\<close>

lemma build_writes:
  assumes "build_painless_script rules_excel output_json w = (Inr (), w')"
  shows "\<exists>m. written w' output_json = Some (painless_script m)"
  using assms
  by (auto simp: build_painless_script_def Let_def split: option.splits if_splits)

lemma reduce_entry: "script_entry ''reduce_script'' (painless_script m) = Some reduce_script"
  by (simp add: script_entry_def painless_script_def)

lemma build_reduce_entry:
  assumes "build_painless_script rules_excel output_json w = (Inr (), w')"
  shows "\<exists>doc. written w' output_json = Some doc
             \<and> script_entry ''reduce_script'' doc = Some reduce_script"
  using build_writes[OF assms] reduce_entry by auto

lemma example_run:
  \<open>fst (build_painless_script ''rules.xlsx'' ''out.json''
          \<lparr>sheets = [''rules.xlsx'' \<mapsto>
                       [(''Numerator'', ''Exclude line where column "A" = "x"''),
                        (''Denominator'', ''Filter column "B" contain "y"'')]],
           written = Map.empty\<rparr>) = Inr ()\<close>
proof -
  let ?df = \<open>[(''Numerator'', ''Exclude line where column "A" = "x"''),
              (''Denominator'', ''Filter column "B" contain "y"'')]\<close>
  have l: \<open>locate ?df (None, None)
             = (Some ''Exclude line where column "A" = "x"'',
                Some ''Filter column "B" contain "y"'')\<close>
    by code_simp
  show ?thesis using l by (simp add: build_painless_script_def Let_def)
qed







text \<open>
  C6, as the specification states it: the script holds a check \<open>num3 != 0\<close> before the
  division of \<open>num2\<close> by \<open>num3\<close>. The text of the script before that division holds no such
  check.
\<close>

theorem num3_check_counterexample: "\<not> num3_guarded reduce_script"
  by code_simp

text \<open>
  C6, amended. In the document that a run without error writes, the reduce script is a
  text \<open>pre\<close>, the loop over \<open>states\<close>, the test \<open>if(new_map.den!=0)\<close> with the assignment of
  \<open>Final_Performance\<close> from \<open>num\<close> and \<open>den\<close>, and a text \<open>post\<close>. The body of the loop is five
  statements in a row, the fourth the division of \<open>num2\<close> by \<open>num3\<close>. The name \<open>num3\<close> occurs
  three times in the script: once in \<open>pre\<close>, its declaration with \<open>0.0\<close>, and twice in the
  loop, where it is summed and where it divides. The script has one \<open>if\<close> and one \<open>!=\<close>, those
  of the test on \<open>den\<close> after the loop, and no \<open>==\<close>, \<open>?\<close>, \<open><\<close>, \<open>>\<close> or \<open>try\<close>: the division by
  \<open>num3\<close> is emitted with no guard, and the case \<open>num3 == 0\<close> has no treatment of its own.
\<close>

theorem reduce_script_checks_only_den:
  assumes "build_painless_script rules_excel output_json w = (Inr (), w')"
  shows "\<exists>doc s pre post.
      written w' output_json = Some doc
    \<and> script_entry ''reduce_script'' doc = Some s
    \<and> s = pre
          @ ''for(a in states){''
          @ ''new_map.num1 += (a.map.var); new_map.num2 += (a.map.var1); new_map.num3 += (a.map.var2); ''
          @ ''new_map.num = (new_map.num1*((new_map.num2/new_map.num3)*100))/100.00; ''
          @ ''new_map.den += a.map.var;''
          @ ''} ''
          @ ''if(new_map.den!=0){return_map.Final_Performance = Math.floor((float)(new_map.num)/(new_map.den)*10000.0)/100.0}''
          @ post
    \<and> contains (sq # ''num3'' @ sq # '': 0.0'') pre
    \<and> occurrences ''num3'' pre = 1 \<and> occurrences ''num3'' post = 0
    \<and> occurrences ''num3'' s = 3
    \<and> occurrences ''if'' s = 1 \<and> occurrences ''!='' s = 1
    \<and> occurrences ''=='' s = 0 \<and> occurrences ''?'' s = 0
    \<and> occurrences ''<'' s = 0 \<and> occurrences ''>'' s = 0 \<and> occurrences ''try'' s = 0"
proof -
  let ?pre = "reduce_decl_result @ reduce_decl_sums"
  let ?post = "reduce_else @ reduce_final_den @ reduce_final_num"
  from build_reduce_entry[OF assms] obtain doc where
    d: "written w' output_json = Some doc"
       "script_entry ''reduce_script'' doc = Some reduce_script"
    by blast
  have e: "reduce_script = ?pre
          @ ''for(a in states){''
          @ ''new_map.num1 += (a.map.var); new_map.num2 += (a.map.var1); new_map.num3 += (a.map.var2); ''
          @ ''new_map.num = (new_map.num1*((new_map.num2/new_map.num3)*100))/100.00; ''
          @ ''new_map.den += a.map.var;''
          @ ''} ''
          @ ''if(new_map.den!=0){return_map.Final_Performance = Math.floor((float)(new_map.num)/(new_map.den)*10000.0)/100.0}''
          @ ?post"
    by (simp add: reduce_script_def reduce_loop_sums_def reduce_loop_ratio_def
          reduce_if_den_def)
  have c: "contains (sq # ''num3'' @ sq # '': 0.0'') ?pre" by code_simp
  have n1: "occurrences ''num3'' ?pre = 1" by code_simp
  have n2: "occurrences ''num3'' ?post = 0" by code_simp
  have n3: "occurrences ''num3'' reduce_script = 3" by code_simp
  have o1: "occurrences ''if'' reduce_script = 1" by code_simp
  have o2: "occurrences ''!='' reduce_script = 1" by code_simp
  have o3: "occurrences ''=='' reduce_script = 0" by code_simp
  have o4: "occurrences ''?'' reduce_script = 0" by code_simp
  have o5: "occurrences ''<'' reduce_script = 0" by code_simp
  have o6: "occurrences ''>'' reduce_script = 0" by code_simp
  have o7: "occurrences ''try'' reduce_script = 0" by code_simp
  from d e c n1 n2 n3 o1 o2 o3 o4 o5 o6 o7 show ?thesis by blast
qed

theorem reduce_script_checks_only_den_witness:
  \<open>fst (build_painless_script ''rules.xlsx'' ''out.json''
          \<lparr>sheets = [''rules.xlsx'' \<mapsto>
                       [(''Numerator'', ''Exclude line where column "A" = "x"''),
                        (''Denominator'', ''Filter column "B" contain "y"'')]],
           written = Map.empty\<rparr>) = Inr ()
   \<and> occurrences ''num3''
        (the (script_entry ''reduce_script''
           (the (written (snd (build_painless_script ''rules.xlsx'' ''out.json''
          \<lparr>sheets = [''rules.xlsx'' \<mapsto>
                       [(''Numerator'', ''Exclude line where column "A" = "x"''),
                        (''Denominator'', ''Filter column "B" contain "y"'')]],
           written = Map.empty\<rparr>)) ''out.json'')))) = 3
   \<and> occurrences ''if''
        (the (script_entry ''reduce_script''
           (the (written (snd (build_painless_script ''rules.xlsx'' ''out.json''
          \<lparr>sheets = [''rules.xlsx'' \<mapsto>
                       [(''Numerator'', ''Exclude line where column "A" = "x"''),
                        (''Denominator'', ''Filter column "B" contain "y"'')]],
           written = Map.empty\<rparr>)) ''out.json'')))) = 1\<close>
proof -
  let ?w = \<open>\<lparr>sheets = [''rules.xlsx'' \<mapsto>
                       [(''Numerator'', ''Exclude line where column "A" = "x"''),
                        (''Denominator'', ''Filter column "B" contain "y"'')]],
           written = Map.empty\<rparr>\<close>
  let ?r = "build_painless_script ''rules.xlsx'' ''out.json'' ?w"
  have f: "fst ?r = Inr ()" by (rule example_run)
  then have h: "?r = (Inr (), snd ?r)" by (simp add: prod_eq_iff)
  from reduce_script_checks_only_den[OF h] obtain doc s where
    "written (snd ?r) ''out.json'' = Some doc" "script_entry ''reduce_script'' doc = Some s"
    "occurrences ''num3'' s = 3" "occurrences ''if'' s = 1"
    by blast
  with f show ?thesis by simp
qed

text \<open>
  C7. In the document that a run without error writes, the reduce script has one loop,
  \<open>for(a in states){...}\<close>; the last statement of its body is \<open>new_map.den += a.map.var;\<close>, the
  field \<open>var\<close> that \<open>num1\<close> sums in the same body. No other place of the script adds to \<open>den\<close>
  or assigns it, and the four fields the script reads from a state are \<open>var\<close>, \<open>var1\<close>, \<open>var2\<close>
  and \<open>var\<close> again: there is no field of the denominator alone.
\<close>

theorem den_accumulates_var:
  assumes "build_painless_script rules_excel output_json w = (Inr (), w')"
  shows "\<exists>doc s pre body post.
      written w' output_json = Some doc
    \<and> script_entry ''reduce_script'' doc = Some s
    \<and> s = pre @ ''for(a in states){'' @ body @ ''new_map.den += a.map.var;}'' @ post
    \<and> body = ''new_map.num1 += (a.map.var); new_map.num2 += (a.map.var1); new_map.num3 += (a.map.var2); ''
             @ ''new_map.num = (new_map.num1*((new_map.num2/new_map.num3)*100))/100.00; ''
    \<and> occurrences ''for('' s = 1
    \<and> occurrences ''den +='' s = 1
    \<and> occurrences ''den ='' s = 0 \<and> occurrences ''den='' s = 0
    \<and> occurrences ''a.map.'' s = 4 \<and> occurrences ''a.map.var'' s = 4"
proof -
  let ?pre = "reduce_decl_result @ reduce_decl_sums"
  let ?body = "''new_map.num1 += (a.map.var); new_map.num2 += (a.map.var1); new_map.num3 += (a.map.var2); ''
               @ ''new_map.num = (new_map.num1*((new_map.num2/new_map.num3)*100))/100.00; ''"
  let ?post = "'' '' @ reduce_if_den @ reduce_else @ reduce_final_den @ reduce_final_num"
  from build_reduce_entry[OF assms] obtain doc where
    d: "written w' output_json = Some doc"
       "script_entry ''reduce_script'' doc = Some reduce_script"
    by blast
  have e: "reduce_script
             = ?pre @ ''for(a in states){'' @ ?body @ ''new_map.den += a.map.var;}'' @ ?post"
    by (simp add: reduce_script_def reduce_loop_sums_def reduce_loop_ratio_def)
  have o1: "occurrences ''for('' reduce_script = 1" by code_simp
  have o2: "occurrences ''den +='' reduce_script = 1" by code_simp
  have o3: "occurrences ''den ='' reduce_script = 0" by code_simp
  have o4: "occurrences ''den='' reduce_script = 0" by code_simp
  have o5: "occurrences ''a.map.'' reduce_script = 4" by code_simp
  have o6: "occurrences ''a.map.var'' reduce_script = 4" by code_simp
  from d e o1 o2 o3 o4 o5 o6 show ?thesis by blast
qed

theorem den_accumulates_var_witness:
  \<open>fst (build_painless_script ''rules.xlsx'' ''out.json''
          \<lparr>sheets = [''rules.xlsx'' \<mapsto>
                       [(''Numerator'', ''Exclude line where column "A" = "x"''),
                        (''Denominator'', ''Filter column "B" contain "y"'')]],
           written = Map.empty\<rparr>) = Inr ()
   \<and> occurrences ''den +=''
        (the (script_entry ''reduce_script''
           (the (written (snd (build_painless_script ''rules.xlsx'' ''out.json''
          \<lparr>sheets = [''rules.xlsx'' \<mapsto>
                       [(''Numerator'', ''Exclude line where column "A" = "x"''),
                        (''Denominator'', ''Filter column "B" contain "y"'')]],
           written = Map.empty\<rparr>)) ''out.json'')))) = 1
   \<and> contains ''new_map.den += a.map.var;}''
        (the (script_entry ''reduce_script''
           (the (written (snd (build_painless_script ''rules.xlsx'' ''out.json''
          \<lparr>sheets = [''rules.xlsx'' \<mapsto>
                       [(''Numerator'', ''Exclude line where column "A" = "x"''),
                        (''Denominator'', ''Filter column "B" contain "y"'')]],
           written = Map.empty\<rparr>)) ''out.json''))))\<close>
proof -
  let ?w = \<open>\<lparr>sheets = [''rules.xlsx'' \<mapsto>
                       [(''Numerator'', ''Exclude line where column "A" = "x"''),
                        (''Denominator'', ''Filter column "B" contain "y"'')]],
           written = Map.empty\<rparr>\<close>
  let ?r = "build_painless_script ''rules.xlsx'' ''out.json'' ?w"
  have f: "fst ?r = Inr ()" by (rule example_run)
  then have h: "?r = (Inr (), snd ?r)" by (simp add: prod_eq_iff)
  from den_accumulates_var[OF h] obtain doc s pre body post where
    "written (snd ?r) ''out.json'' = Some doc" "script_entry ''reduce_script'' doc = Some s"
    "s = pre @ ''for(a in states){'' @ body @ ''new_map.den += a.map.var;}'' @ post"
    "occurrences ''den +='' s = 1"
    by blast
  moreover have
    "contains ''new_map.den += a.map.var;}''
       ((pre @ ''for(a in states){'' @ body) @ ''new_map.den += a.map.var;}'' @ post)"
    by (rule contains_appendI)
  ultimately show ?thesis using f by simp
qed




end
